theory Spec2Isabelle
  imports Complex_Main "HOL-Library.Word"
begin

unbundle bit_operations_syntax

section \<open>Python values\<close>

text \<open>
  The pipeline state of \<^verbatim>\<open>run_cost_agent/__init__.py\<close> is a plain Python \<^verbatim>\<open>dict\<close> holding
  JSON-like data. A Python \<^verbatim>\<open>str\<close> is modelled by its UTF-8 bytes (a \<^typ>\<open>string\<close>), a
  Python \<^verbatim>\<open>int\<close> by \<^typ>\<open>int\<close>, a Python \<^verbatim>\<open>float\<close> by its IEEE 754 binary64 bit pattern,
  and a \<^verbatim>\<open>dict\<close> with string keys by an association list in insertion order.
\<close>

datatype pyval =
    PNone
  | PBool bool
  | PInt int
  | PFloat "64 word"
  | PStr string
  | PList "pyval list"
  | PDict "(string \<times> pyval) list"

type_synonym pydict = "(string \<times> pyval) list"

datatype error =
    KeyError string
  | TypeError
  | JSONDecodeError
  | UpstreamServiceError string
  | StorageError string

subsection \<open>Dictionaries\<close>

text \<open>The value stored under a key, if any.\<close>

definition dict_lookup :: "pydict \<Rightarrow> string \<Rightarrow> pyval option" where
  "dict_lookup d k = map_of d k"

text \<open>\<^verbatim>\<open>d[k] = v\<close>: an existing key keeps its position, a new key goes last.\<close>

fun dict_set :: "string \<Rightarrow> pyval \<Rightarrow> pydict \<Rightarrow> pydict" where
  "dict_set k v [] = [(k, v)]"
| "dict_set k v (kv # d) = (if fst kv = k then (k, v) # d else kv # dict_set k v d)"

text \<open>\<^verbatim>\<open>d.get(k, default)\<close>; \<^verbatim>\<open>d.get(k)\<close> is \<^verbatim>\<open>d.get(k, None)\<close>.\<close>

definition dict_get :: "pydict \<Rightarrow> string \<Rightarrow> pyval \<Rightarrow> pyval" where
  "dict_get d k dflt = (case dict_lookup d k of Some v \<Rightarrow> v | None \<Rightarrow> dflt)"

definition dict_keys :: "pydict \<Rightarrow> string set" where
  "dict_keys d = fst ` set d"

text \<open>
  \<^verbatim>\<open>x[k]\<close> with a string key: a dict looks the key up and raises \<^verbatim>\<open>KeyError\<close> when it is
  missing; every other value of the model raises \<^verbatim>\<open>TypeError\<close> (not subscriptable, or
  indices must be integers).
\<close>

fun getitem :: "pyval \<Rightarrow> string \<Rightarrow> error + pyval" where
  "getitem (PDict d) k = (case dict_lookup d k of Some v \<Rightarrow> Inr v | None \<Rightarrow> Inl (KeyError k))"
| "getitem _ k = Inl TypeError"

subsection \<open>Floats and comparison with an integer\<close>

definition float_sign :: "64 word \<Rightarrow> bool" where
  "float_sign w = bit w 63"

definition float_exponent :: "64 word \<Rightarrow> nat" where
  "float_exponent w = unat (take_bit 11 (drop_bit 52 w))"

definition float_fraction :: "64 word \<Rightarrow> nat" where
  "float_fraction w = unat (take_bit 52 w)"

definition float_is_nan :: "64 word \<Rightarrow> bool" where
  "float_is_nan w \<longleftrightarrow> float_exponent w = 2047 \<and> float_fraction w \<noteq> 0"

definition float_is_inf :: "64 word \<Rightarrow> bool" where
  "float_is_inf w \<longleftrightarrow> float_exponent w = 2047 \<and> float_fraction w = 0"

text \<open>The rational number a finite binary64 pattern denotes.\<close>

definition float_value :: "64 word \<Rightarrow> rat" where
  "float_value w =
     (let m = (if float_exponent w = 0 then float_fraction w else 2 ^ 52 + float_fraction w);
          e = (if float_exponent w = 0 then 1 else float_exponent w);
          a = of_nat m * 2 powi (int e - 1075)
      in if float_sign w then - a else a)"

text \<open>
  \<^verbatim>\<open>x > n\<close> for a float \<^verbatim>\<open>x\<close> and an int \<^verbatim>\<open>n\<close>: Python compares the exact values; a NaN
  compares false, an infinity by its sign.
\<close>

definition float_gt_int :: "64 word \<Rightarrow> int \<Rightarrow> bool" where
  "float_gt_int w n =
     (if float_is_nan w then False
      else if float_is_inf w then \<not> float_sign w
      else float_value w > of_int n)"

text \<open>
  \<^verbatim>\<open>x > n\<close> for any value \<^verbatim>\<open>x\<close> and an int \<^verbatim>\<open>n\<close>. \<^verbatim>\<open>bool\<close> is a subclass of \<^verbatim>\<open>int\<close>
  (\<^verbatim>\<open>True\<close> is 1); \<^verbatim>\<open>None\<close>, strings, lists and dicts raise \<^verbatim>\<open>TypeError\<close>.
\<close>

fun gt_int :: "pyval \<Rightarrow> int \<Rightarrow> error + bool" where
  "gt_int (PBool b) n = Inr ((if b then 1 else 0) > n)"
| "gt_int (PInt i) n = Inr (i > n)"
| "gt_int (PFloat w) n = Inr (float_gt_int w n)"
| "gt_int _ n = Inl TypeError"

section \<open>The JSON decoder\<close>

text \<open>
  \<^verbatim>\<open>json.loads\<close> of the Python standard library, as \<^verbatim>\<open>simulate_optimizations\<close> calls it
  (no hooks, strict mode): \<^verbatim>\<open>json/decoder.py\<close> and \<^verbatim>\<open>json/scanner.py\<close>. The decoder
  works on the input from left to right; each function of the model takes the input that
  is left and returns the decoded value with the rest. Every failure of the decoder on a
  string is a \<^verbatim>\<open>JSONDecodeError\<close>, here the result \<open>None\<close>; its message and position are
  not modelled. Limits of
  the interpreter (recursion depth, digits of an integer) are not modelled either.
\<close>

definition is_ws :: "char \<Rightarrow> bool" where
  "is_ws c \<longleftrightarrow> c = CHR '' '' \<or> c = CHR 0x09 \<or> c = CHR 0x0A \<or> c = CHR 0x0D"

definition skip_ws :: "string \<Rightarrow> string" where
  "skip_ws s = dropWhile is_ws s"

text \<open>The ASCII digits \<^verbatim>\<open>[0-9]\<close> and their values.\<close>

definition is_digit :: "char \<Rightarrow> bool" where
  "is_digit c \<longleftrightarrow> 48 \<le> (of_char c :: nat) \<and> (of_char c :: nat) \<le> 57"

definition digit_value :: "char \<Rightarrow> nat" where
  "digit_value c = of_char c - 48"

definition digits_value :: "string \<Rightarrow> nat" where
  "digits_value ds = foldl (\<lambda>a c. 10 * a + digit_value c) 0 ds"

text \<open>\<^verbatim>\<open>_decode_uXXXX\<close>: four hexadecimal digits.\<close>

definition hex_value :: "char \<Rightarrow> nat option" where
  "hex_value c =
     (let n = (of_char c :: nat) in
      if 48 \<le> n \<and> n \<le> 57 then Some (n - 48)
      else if 65 \<le> n \<and> n \<le> 70 then Some (n - 55)
      else if 97 \<le> n \<and> n \<le> 102 then Some (n - 87)
      else None)"

definition decode_uXXXX :: "string \<Rightarrow> nat option" where
  "decode_uXXXX s =
     (case map hex_value (take 4 s) of
        [Some a, Some b, Some c, Some d] \<Rightarrow> Some (((a * 16 + b) * 16 + c) * 16 + d)
      | _ \<Rightarrow> None)"

text \<open>\<^verbatim>\<open>chr(uni)\<close>, as UTF-8 bytes (a lone surrogate takes three bytes).\<close>

definition chr_utf8 :: "nat \<Rightarrow> string" where
  "chr_utf8 u =
     (if u < 0x80 then [char_of u]
      else if u < 0x800 then [char_of (0xC0 + u div 0x40), char_of (0x80 + u mod 0x40)]
      else if u < 0x10000 then
        [char_of (0xE0 + u div 0x1000), char_of (0x80 + u div 0x40 mod 0x40),
         char_of (0x80 + u mod 0x40)]
      else
        [char_of (0xF0 + u div 0x40000), char_of (0x80 + u div 0x1000 mod 0x40),
         char_of (0x80 + u div 0x40 mod 0x40), char_of (0x80 + u mod 0x40)])"

text \<open>The table \<^verbatim>\<open>BACKSLASH\<close> of one-letter escapes.\<close>

definition backslash :: "char \<Rightarrow> char option" where
  "backslash esc =
     (if esc = CHR 0x22 then Some (CHR 0x22)
      else if esc = CHR 0x5C then Some (CHR 0x5C)
      else if esc = CHR ''/'' then Some (CHR ''/'')
      else if esc = CHR ''b'' then Some (CHR 0x08)
      else if esc = CHR ''f'' then Some (CHR 0x0C)
      else if esc = CHR ''n'' then Some (CHR 0x0A)
      else if esc = CHR ''r'' then Some (CHR 0x0D)
      else if esc = CHR ''t'' then Some (CHR 0x09)
      else None)"

text \<open>
  \<^verbatim>\<open>scanstring\<close>, from the character after the opening quote: the text up to the closing
  quote with the escapes replaced. A control character below 0x20, an unknown escape and a
  missing closing quote are errors. The escape of a high surrogate directly followed by the
  escape of a low surrogate is one code point.
\<close>

fun scanstring :: "string \<Rightarrow> string \<Rightarrow> (string \<times> string) option" where
  "scanstring acc [] = None"
| "scanstring acc (c # s) =
     (if c = CHR 0x22 then Some (acc, s)
      else if c = CHR 0x5C then
        (case s of
           [] \<Rightarrow> None
         | esc # s1 \<Rightarrow>
             if esc \<noteq> CHR ''u'' then
               (case backslash esc of
                  None \<Rightarrow> None
                | Some ch \<Rightarrow> scanstring (acc @ [ch]) s1)
             else
               (case decode_uXXXX s1 of
                  None \<Rightarrow> None
                | Some uni \<Rightarrow>
                    if 0xD800 \<le> uni \<and> uni \<le> 0xDBFF \<and> take 2 (drop 4 s1) = [CHR 0x5C, CHR ''u''] then
                      (case decode_uXXXX (drop 6 s1) of
                         None \<Rightarrow> None
                       | Some uni2 \<Rightarrow>
                           if 0xDC00 \<le> uni2 \<and> uni2 \<le> 0xDFFF then
                             scanstring
                               (acc @ chr_utf8 (0x10000 + ((uni - 0xD800) * 0x400 + (uni2 - 0xDC00))))
                               (drop 10 s1)
                           else scanstring (acc @ chr_utf8 uni) (drop 4 s1))
                    else scanstring (acc @ chr_utf8 uni) (drop 4 s1)))
      else if (of_char c :: nat) < 0x20 then None
      else scanstring (acc @ [c]) s)"

text \<open>Scanning consumes input: the facts the termination of the decoder rests on.\<close>

lemma length_skip_ws: "length (skip_ws s) \<le> length s"
  by (simp add: skip_ws_def length_dropWhile_le)

lemma skip_ws_Cons: "skip_ws s = c # r \<Longrightarrow> length r < length s"
  using length_skip_ws [of s] by simp

lemma scanstring_step:
  assumes "scanstring acc (c # s) = Some (str, r)"
  shows "r = s \<or> (\<exists>acc'. scanstring acc' s = Some (str, r))
       \<or> (\<exists>acc'. scanstring acc' (drop 1 s) = Some (str, r))
       \<or> (\<exists>acc'. scanstring acc' (drop 5 s) = Some (str, r))
       \<or> (\<exists>acc'. scanstring acc' (drop 11 s) = Some (str, r))"
proof (cases "c = CHR 0x22")
  case True
  with assms show ?thesis by simp
next
  case quote: False
  show ?thesis
  proof (cases "c = CHR 0x5C")
    case False
    with quote assms have "scanstring (acc @ [c]) s = Some (str, r)"
      by (simp split: if_splits)
    then show ?thesis by blast
  next
    case True
    with quote assms obtain esc s1 where s: "s = esc # s1"
      by (cases s) auto
    show ?thesis
    proof (cases "esc = CHR ''u''")
      case False
      with True quote assms s obtain ch where "scanstring (acc @ [ch]) s1 = Some (str, r)"
        by (auto split: option.splits)
      with s show ?thesis by auto
    next
      case u: True
      with True quote assms s
      have "(\<exists>acc'. scanstring acc' (drop 4 s1) = Some (str, r))
          \<or> (\<exists>acc'. scanstring acc' (drop 10 s1) = Some (str, r))"
        by (simp split: option.splits if_splits) blast+
      with s show ?thesis by auto
    qed
  qed
qed

lemma scanstring_shorter: "scanstring acc s = Some (str, r) \<Longrightarrow> length r < length s"
proof (induction s arbitrary: acc rule: length_induct)
  case (1 s)
  show ?case
  proof (cases s)
    case Nil
    with "1.prems" show ?thesis by simp
  next
    case (Cons c s')
    have step: "length r \<le> length s'"
      if call: "scanstring acc' y = Some (str, r)" and y: "length y \<le> length s'" for acc' y
    proof -
      have "length y < length s"
        using Cons y by simp
      with "1.IH" call have "length r < length y" by blast
      with y show ?thesis by simp
    qed
    have "scanstring acc (c # s') = Some (str, r)"
      using "1.prems" unfolding Cons .
    from scanstring_step [OF this] have "length r \<le> length s'"
    proof (elim disjE exE)
      assume "r = s'"
      then show ?thesis by simp
    next
      fix acc' assume "scanstring acc' s' = Some (str, r)"
      then show ?thesis by (rule step) simp
    next
      fix acc' assume "scanstring acc' (drop 1 s') = Some (str, r)"
      then show ?thesis by (rule step) simp
    next
      fix acc' assume "scanstring acc' (drop 5 s') = Some (str, r)"
      then show ?thesis by (rule step) simp
    next
      fix acc' assume "scanstring acc' (drop 11 s') = Some (str, r)"
      then show ?thesis by (rule step) simp
    qed
    with Cons show ?thesis by simp
  qed
qed

subsection \<open>Numbers\<close>

text \<open>The four groups of a match of \<^verbatim>\<open>NUMBER_RE\<close>: sign, integer digits, fraction digits,
  exponent (with its sign), and the rest of the input.\<close>

definition match_exponent :: "string \<Rightarrow> (int \<times> string) option" where
  "match_exponent s =
     (case s of
        [] \<Rightarrow> None
      | e # r \<Rightarrow>
          if e \<noteq> CHR ''e'' \<and> e \<noteq> CHR ''E'' then None
          else
            (let neg = (case r of [] \<Rightarrow> False | c # _ \<Rightarrow> c = CHR ''-'');
                 r1 = (case r of [] \<Rightarrow> r | c # r' \<Rightarrow> if c = CHR ''-'' \<or> c = CHR ''+'' then r' else r);
                 ds = takeWhile is_digit r1
             in if ds = [] then None
                else Some ((if neg then - int (digits_value ds) else int (digits_value ds)),
                           dropWhile is_digit r1)))"

definition match_fraction :: "string \<Rightarrow> (string \<times> string) option" where
  "match_fraction s =
     (case s of
        [] \<Rightarrow> None
      | c # r \<Rightarrow>
          if c = CHR ''.'' \<and> takeWhile is_digit r \<noteq> [] then Some (takeWhile is_digit r, dropWhile is_digit r)
          else None)"

definition match_integer :: "string \<Rightarrow> (bool \<times> string \<times> string) option" where
  "match_integer s =
     (let neg = (case s of [] \<Rightarrow> False | c # _ \<Rightarrow> c = CHR ''-'');
          s1 = (if neg then tl s else s)
      in case s1 of
           [] \<Rightarrow> None
         | d # r \<Rightarrow>
             if d = CHR ''0'' then Some (neg, [d], r)
             else if is_digit d then Some (neg, d # takeWhile is_digit r, dropWhile is_digit r)
             else None)"


text \<open>\<^verbatim>\<open>int.bit_length\<close>.\<close>

fun bit_length :: "nat \<Rightarrow> nat" where
  "bit_length n = (if n = 0 then 0 else Suc (bit_length (n div 2)))"

declare bit_length.simps [simp del]

text \<open>The exponent \<open>e\<close> with \<open>2 ^ e \<le> a / b < 2 ^ (e + 1)\<close>, for positive \<open>a\<close> and \<open>b\<close>.\<close>

definition floor_log2 :: "nat \<Rightarrow> nat \<Rightarrow> int" where
  "floor_log2 a b =
     (let d = int (bit_length a) - int (bit_length b)
      in if (if 0 \<le> d then b * 2 ^ nat d \<le> a else b \<le> a * 2 ^ nat (- d)) then d else d - 1)"

text \<open>\<^verbatim>\<open>n / d\<close> rounded to the nearest integer, ties to even.\<close>

definition round_half_even :: "nat \<Rightarrow> nat \<Rightarrow> nat" where
  "round_half_even n d =
     (let q = n div d; r = n mod d
      in if 2 * r < d then q else if d < 2 * r then q + 1 else if even q then q else q + 1)"

text \<open>
  The binary64 pattern (sign bit clear) nearest to \<open>a / b\<close>, ties to even: what \<^verbatim>\<open>float\<close>
  returns for a decimal numeral. Below \<open>2 ^ -1022\<close> the result is subnormal; a value that
  rounds to \<open>2 ^ 1024\<close> or more is infinity.
\<close>

definition binary64_of_fraction :: "nat \<Rightarrow> nat \<Rightarrow> nat" where
  "binary64_of_fraction a b =
     (if a = 0 then 0
      else
        let e = max (floor_log2 a b) (- 1022);
            m = (if e \<le> 52 then round_half_even (a * 2 ^ nat (52 - e)) b
                 else round_half_even a (b * 2 ^ nat (e - 52)))
        in min (nat ((e + 1022) * 2 ^ 52 + int m)) 0x7FF0000000000000)"

text \<open>\<^verbatim>\<open>float(integer + frac + exp)\<close> on the groups of a number match.\<close>

definition parse_float :: "bool \<Rightarrow> string \<Rightarrow> string \<Rightarrow> int \<Rightarrow> 64 word" where
  "parse_float neg ip fd ex =
     (let k = ex - int (length fd);
          n = digits_value (ip @ fd);
          bits = (if 0 \<le> k then binary64_of_fraction (n * 10 ^ nat k) 1
                  else binary64_of_fraction n (10 ^ nat (- k)))
      in if neg then word_of_nat bits OR 0x8000000000000000 else word_of_nat bits)"

text \<open>
  A match of \<^verbatim>\<open>NUMBER_RE\<close>, converted as \<^verbatim>\<open>_scan_once\<close> does: \<^verbatim>\<open>float\<close> when there is a
  fraction or an exponent, \<^verbatim>\<open>int\<close> otherwise.
\<close>

definition match_number :: "string \<Rightarrow> (pyval \<times> string) option" where
  "match_number s =
     (case match_integer s of
        None \<Rightarrow> None
      | Some (neg, ip, r1) \<Rightarrow>
          (let fd = (case match_fraction r1 of None \<Rightarrow> [] | Some (f, r) \<Rightarrow> f);
               r2 = (case match_fraction r1 of None \<Rightarrow> r1 | Some (f, r) \<Rightarrow> r);
               ex = map_option fst (match_exponent r2);
               r3 = (case match_exponent r2 of None \<Rightarrow> r2 | Some (e, r) \<Rightarrow> r)
           in if fd \<noteq> [] \<or> ex \<noteq> None
              then Some (PFloat (parse_float neg ip fd (case ex of None \<Rightarrow> 0 | Some e \<Rightarrow> e)), r3)
              else Some (PInt (if neg then - int (digits_value ip) else int (digits_value ip)), r3)))"

text \<open>
  \<^verbatim>\<open>_scan_once\<close>, \<^verbatim>\<open>JSONArray\<close> (from the first element on, with the elements read so far)
  and \<^verbatim>\<open>JSONObject\<close> (from the character after the opening quote of a key, with the
  dict built so far; a repeated key keeps its first position and takes the last value, as
  \<^verbatim>\<open>dict(pairs)\<close> does). The two loops continue on the input left by \<open>scan_once\<close>; the
  test that it is shorter than the loop's own input is there for the termination proof
  and always holds (\<open>parse_array_unfold\<close>, \<open>parse_object_unfold\<close>).
\<close>

function scan_once :: "string \<Rightarrow> (pyval \<times> string) option"
  and parse_array :: "pyval list \<Rightarrow> string \<Rightarrow> (pyval \<times> string) option"
  and parse_object :: "pydict \<Rightarrow> string \<Rightarrow> (pyval \<times> string) option"
where
  "scan_once [] = None"
| "scan_once (c # r) =
     (if c = CHR 0x22 then
        (case scanstring [] r of None \<Rightarrow> None | Some (str, r1) \<Rightarrow> Some (PStr str, r1))
      else if c = CHR ''{'' then
        (case skip_ws r of
           [] \<Rightarrow> None
         | c1 # r1 \<Rightarrow>
             if c1 = CHR ''}'' then Some (PDict [], r1)
             else if c1 = CHR 0x22 then parse_object [] r1
             else None)
      else if c = CHR ''['' then
        (case skip_ws r of
           [] \<Rightarrow> None
         | c1 # r1 \<Rightarrow>
             if c1 = CHR '']'' then Some (PList [], r1)
             else parse_array [] (c1 # r1))
      else if take 4 (c # r) = ''null'' then Some (PNone, drop 4 (c # r))
      else if take 4 (c # r) = ''true'' then Some (PBool True, drop 4 (c # r))
      else if take 5 (c # r) = ''false'' then Some (PBool False, drop 5 (c # r))
      else
        (case match_number (c # r) of
           Some res \<Rightarrow> Some res
         | None \<Rightarrow>
             if take 3 (c # r) = ''NaN'' then Some (PFloat 0x7FF8000000000000, drop 3 (c # r))
             else if take 8 (c # r) = ''Infinity'' then Some (PFloat 0x7FF0000000000000, drop 8 (c # r))
             else if take 9 (c # r) = ''-Infinity'' then Some (PFloat 0xFFF0000000000000, drop 9 (c # r))
             else None))"
| "parse_array values s =
     (case scan_once s of
        None \<Rightarrow> None
      | Some (v, r) \<Rightarrow>
          (case skip_ws r of
             [] \<Rightarrow> None
           | c # r1 \<Rightarrow>
               if c = CHR '']'' then Some (PList (values @ [v]), r1)
               else if c \<noteq> CHR '','' then None
               else if length (skip_ws r1) < length s then parse_array (values @ [v]) (skip_ws r1)
               else None))"
| "parse_object pairs s =
     (case scanstring [] s of
        None \<Rightarrow> None
      | Some (key, r) \<Rightarrow>
          (case skip_ws r of
             [] \<Rightarrow> None
           | c # r1 \<Rightarrow>
               if c \<noteq> CHR '':'' then None
               else
                 (case scan_once (skip_ws r1) of
                    None \<Rightarrow> None
                  | Some (v, r2) \<Rightarrow>
                      (case skip_ws r2 of
                         [] \<Rightarrow> None
                       | c2 # r3 \<Rightarrow>
                           if c2 = CHR ''}'' then Some (PDict (dict_set key v pairs), r3)
                           else if c2 \<noteq> CHR '','' then None
                           else
                             (case skip_ws r3 of
                                [] \<Rightarrow> None
                              | c3 # r4 \<Rightarrow>
                                  if c3 \<noteq> CHR 0x22 then None
                                  else if length r4 < length s then parse_object (dict_set key v pairs) r4
                                  else None)))))"
  by pat_completeness auto
termination
proof (relation "measure (\<lambda>x. case x of
          Inl s \<Rightarrow> 2 * length s
        | Inr (Inl (values, s)) \<Rightarrow> 2 * length s + 1
        | Inr (Inr (pairs, s)) \<Rightarrow> 2 * length s + 1)", goal_cases)
  case 1
  show ?case by simp
next
  case (2 c r c1 r1)
  then show ?case using skip_ws_Cons [of r c1 r1] by simp
next
  case (3 c r c1 r1)
  then show ?case using length_skip_ws [of r] by simp
next
  case 4
  show ?case by simp
next
  case 5
  then show ?case by simp
next
  case (6 pairs s x key r c r1)
  then show ?case
    using scanstring_shorter [of "[]" s key r] skip_ws_Cons [of r c r1] length_skip_ws [of r1]
    by simp
next
  case 7
  then show ?case by simp
qed

text \<open>\<^verbatim>\<open>json.loads(s)\<close>: a \<^verbatim>\<open>str\<close> is decoded, anything else of the model is a \<^verbatim>\<open>TypeError\<close>.\<close>

definition json_loads :: "pyval \<Rightarrow> error + pyval" where
  "json_loads x =
     (case x of
        PStr s \<Rightarrow>
          (if take 3 s = [CHR 0xEF, CHR 0xBB, CHR 0xBF] then Inl JSONDecodeError
           else
             (case scan_once (skip_ws s) of
                None \<Rightarrow> Inl JSONDecodeError
              | Some (obj, r) \<Rightarrow> if skip_ws r = [] then Inr obj else Inl JSONDecodeError))
      | _ \<Rightarrow> Inl TypeError)"

declare scan_once.simps [simp del] parse_array.simps [simp del] parse_object.simps [simp del]

section \<open>The pipeline stages\<close>

text \<open>The float literal \<^verbatim>\<open>2.35\<close>: the binary64 value nearest to 47/20.\<close>

definition float_2_35 :: "64 word" where
  "float_2_35 = 0x4002CCCCCCCCCCCD"

text \<open>
  \<^verbatim>\<open>
  def fetch_cost_data(state: dict) -> dict:
      state["cost_data"] = {
          "resource": "Azure Storage Account",
          "monthly_cost_usd": 2.35,
          "currency": "USD"
      }
      return state
  \<close>
\<close>

definition fetch_cost_data :: "pydict \<Rightarrow> pydict" where
  "fetch_cost_data state =
     dict_set ''cost_data''
       (PDict [(''resource'', PStr ''Azure Storage Account''),
               (''monthly_cost_usd'', PFloat float_2_35),
               (''currency'', PStr ''USD'')])
       state"

text \<open>
  \<^verbatim>\<open>
  def detect_anomaly(state: dict) -> dict:
      cost = state["cost_data"]["monthly_cost_usd"]
      state["anomaly_detected"] = cost > 5
      return state
  \<close>
\<close>

definition detect_anomaly :: "pydict \<Rightarrow> error + pydict" where
  "detect_anomaly state =
     (case getitem (PDict state) ''cost_data'' of
        Inl e \<Rightarrow> Inl e
      | Inr cost_data \<Rightarrow>
          (case getitem cost_data ''monthly_cost_usd'' of
             Inl e \<Rightarrow> Inl e
           | Inr cost \<Rightarrow>
               (case gt_int cost 5 of
                  Inl e \<Rightarrow> Inl e
                | Inr b \<Rightarrow> Inr (dict_set ''anomaly_detected'' (PBool b) state))))"

subsection \<open>The outside world\<close>

text \<open>
  The language model, the clock, the blob container and two functions of the Python
  runtime are outside the repository. Their behaviour is a parameter of the model
  (\<open>services\<close>); what the program does to them is recorded in a \<open>world\<close> that every
  effectful function takes and returns. An exception leaves the effects made before it.

  \<^item> \<open>llm_invoke\<close>: \<^verbatim>\<open>llm.invoke(prompt)\<close>, a response or an exception;
  \<^item> \<open>utcnow_isoformat\<close>: \<^verbatim>\<open>datetime.datetime.utcnow().isoformat()\<close> at the n-th reading
    of the clock;
  \<^item> \<open>upload_blob\<close>: whether \<^verbatim>\<open>container_client.upload_blob(name, data, overwrite=True)\<close>
    raises;
  \<^item> \<open>py_repr\<close>: \<^verbatim>\<open>repr\<close> of a value;
  \<^item> \<open>json_dumps\<close>: \<^verbatim>\<open>json.dumps(value, indent=2)\<close>, which cannot fail on the values
    of the model.

  Building the client objects (\<^verbatim>\<open>AzureChatOpenAI(...)\<close>, \<^verbatim>\<open>BlobServiceClient\<close>) from the
  constants of the configuration is taken to succeed.
\<close>

record llm_response =
  content :: "pyval option"
  response_str :: string

record services =
  llm_invoke :: "string \<Rightarrow> error + llm_response"
  utcnow_isoformat :: "nat \<Rightarrow> string"
  upload_blob :: "string \<Rightarrow> string \<Rightarrow> error option"
  py_repr :: "pyval \<Rightarrow> string"
  json_dumps :: "pyval \<Rightarrow> string"

record world =
  stdout :: "string list"
  prompts :: "string list"
  clock_reads :: nat
  blobs :: "string \<rightharpoonup> string"

text \<open>\<^verbatim>\<open>str(x)\<close>, also what an f-string puts for \<^verbatim>\<open>{x}\<close>: a string is itself.\<close>

definition py_str :: "services \<Rightarrow> pyval \<Rightarrow> string" where
  "py_str svc v = (case v of PStr s \<Rightarrow> s | _ \<Rightarrow> py_repr svc v)"

text \<open>\<^verbatim>\<open>print(a, b, ...)\<close>: the arguments separated by spaces, then a newline.\<close>

fun join_args :: "string list \<Rightarrow> string" where
  "join_args [] = []"
| "join_args [a] = a"
| "join_args (a # b # bs) = a @ '' '' @ join_args (b # bs)"

definition print :: "string list \<Rightarrow> world \<Rightarrow> world" where
  "print args w = w\<lparr>stdout := stdout w @ [join_args args @ ''\<newline>'']\<rparr>"

definition utcnow :: "services \<Rightarrow> world \<Rightarrow> string \<times> world" where
  "utcnow svc w = (utcnow_isoformat svc (clock_reads w), w\<lparr>clock_reads := Suc (clock_reads w)\<rparr>)"

subsection \<open>The advisor\<close>

text \<open>
  \<^verbatim>\<open>
      prompt = f"""
  You are an Azure cost optimization assistant.

  Cost data:
  {state['cost_data']}

  User question:
  {user_question}

  STRICTLY return a single valid JSON object with the keys:
  - resource
  - recommended_change
  - estimated_monthly_savings
  - risk_level
  """
  \<close>
\<close>

definition make_prompt :: "string \<Rightarrow> string \<Rightarrow> string" where
  "make_prompt cost_data user_question =
     ''\<newline>You are an Azure cost optimization assistant.\<newline>\<newline>Cost data:\<newline>'' @ cost_data
     @ ''\<newline>\<newline>User question:\<newline>'' @ user_question
     @ ''\<newline>\<newline>STRICTLY return a single valid JSON object with the keys:\<newline>''
     @ ''- resource\<newline>- recommended_change\<newline>- estimated_monthly_savings\<newline>- risk_level\<newline>''"

text \<open>\<^verbatim>\<open>getattr(response, "content", str(response))\<close>\<close>

definition raw_text_of :: "llm_response \<Rightarrow> pyval" where
  "raw_text_of response =
     (case content response of Some c \<Rightarrow> c | None \<Rightarrow> PStr (response_str response))"

text \<open>
  \<^verbatim>\<open>
      try:
          state["optimizations"] = json.loads(raw_text)
      except json.JSONDecodeError:
          state["optimizations"] = {"raw_output": raw_text}
  \<close>
  Only \<^verbatim>\<open>JSONDecodeError\<close> is caught.
\<close>

definition store_optimizations :: "pyval \<Rightarrow> pydict \<Rightarrow> error + pydict" where
  "store_optimizations raw_text state =
     (case json_loads raw_text of
        Inr v \<Rightarrow> Inr (dict_set ''optimizations'' v state)
      | Inl e \<Rightarrow>
          if e = JSONDecodeError
          then Inr (dict_set ''optimizations'' (PDict [(''raw_output'', raw_text)]) state)
          else Inl e)"

text \<open>
  \<^verbatim>\<open>simulate_optimizations\<close>: the question (or the default), the prompt (a \<^verbatim>\<open>KeyError\<close>
  when \<^verbatim>\<open>cost_data\<close> is missing), the call of the model (its exception is not caught), the
  printed reply, and the stored result. The line printed starts with the memo emoji
  U+1F4DD.
\<close>

definition simulate_optimizations :: "services \<Rightarrow> pydict \<Rightarrow> world \<Rightarrow> (error + pydict) \<times> world" where
  "simulate_optimizations svc state w =
     (let user_question = dict_get state ''user_question'' (PStr ''Explore my Azure costs'')
      in case getitem (PDict state) ''cost_data'' of
           Inl e \<Rightarrow> (Inl e, w)
         | Inr cost_data \<Rightarrow>
             (let prompt = make_prompt (py_str svc cost_data) (py_str svc user_question);
                  w1 = w\<lparr>prompts := prompts w @ [prompt]\<rparr>
              in case llm_invoke svc prompt of
                   Inl e \<Rightarrow> (Inl e, w1)
                 | Inr response \<Rightarrow>
                     (let raw_text = raw_text_of response;
                          w2 = print [[CHR 0xF0, CHR 0x9F, CHR 0x93, CHR 0x9D] @ '' Raw LLM output:'',
                                      py_str svc raw_text] w1
                      in (store_optimizations raw_text state, w2))))"

subsection \<open>The report\<close>

text \<open>
  \<^verbatim>\<open>
  def generate_report(state: dict) -> dict:
      return {
          "timestamp": datetime.datetime.utcnow().isoformat(),
          "cost_data": state.get("cost_data"),
          "anomaly_detected": state.get("anomaly_detected"),
          "optimizations": state.get("optimizations")
      }
  \<close>
  The result is the new dict together with the argument dict as the call leaves it.
\<close>

definition generate_report :: "services \<Rightarrow> pydict \<Rightarrow> world \<Rightarrow> (pydict \<times> pydict) \<times> world" where
  "generate_report svc state w =
     (let (timestamp, w1) = utcnow svc w
      in (([(''timestamp'', PStr timestamp),
            (''cost_data'', dict_get state ''cost_data'' PNone),
            (''anomaly_detected'', dict_get state ''anomaly_detected'' PNone),
            (''optimizations'', dict_get state ''optimizations'' PNone)],
           state), w1))"

subsection \<open>Blob storage\<close>

text \<open>
  \<^verbatim>\<open>
      blob_name = f"agent-report-{datetime.datetime.utcnow().isoformat()}.json"
      container_client.upload_blob(
          name=blob_name,
          data=json.dumps(report, indent=2),
          overwrite=True
      )
  \<close>
  Nothing here catches the exception of a failed upload.
\<close>

definition save_state_to_blob :: "services \<Rightarrow> pydict \<Rightarrow> world \<Rightarrow> (error + unit) \<times> world" where
  "save_state_to_blob svc report w =
     (let (now, w1) = utcnow svc w;
          blob_name = ''agent-report-'' @ now @ ''.json'';
          data = json_dumps svc (PDict report)
      in case upload_blob svc blob_name data of
           Some e \<Rightarrow> (Inl e, w1)
         | None \<Rightarrow> (Inr (), w1\<lparr>blobs := (blobs w1)(blob_name \<mapsto> data)\<rparr>))"

subsection \<open>The entry point\<close>

record http_request =
  params :: "string \<rightharpoonup> string"

record http_response =
  body :: string
  mimetype :: string

text \<open>
  The compiled graph of \<^verbatim>\<open>main\<close>: the chain \<^verbatim>\<open>fetch_cost\<close>, \<^verbatim>\<open>detect_anomaly\<close>,
  \<^verbatim>\<open>optimize\<close>, \<^verbatim>\<open>report\<close>. Each node receives what the node before it returned, the
  first node the input of \<^verbatim>\<open>app.invoke\<close>; the result is what the last node returned. An
  exception in a node ends the run.
\<close>

definition app_invoke :: "services \<Rightarrow> pydict \<Rightarrow> world \<Rightarrow> (error + pydict) \<times> world" where
  "app_invoke svc input w =
     (case detect_anomaly (fetch_cost_data input) of
        Inl e \<Rightarrow> (Inl e, w)
      | Inr state \<Rightarrow>
          (case simulate_optimizations svc state w of
             (Inl e, w1) \<Rightarrow> (Inl e, w1)
           | (Inr state', w1) \<Rightarrow>
               (let ((report, _), w2) = generate_report svc state' w1 in (Inr report, w2))))"

text \<open>
  \<^verbatim>\<open>
      user_question = req.params.get("question", "Explore my Azure costs")
      ...
      result = app.invoke({"user_question": user_question})
      save_state_to_blob(result)
      return func.HttpResponse(json.dumps(result, indent=2), mimetype="application/json")
  \<close>
  The first line printed starts with the fire emoji U+1F525; \<open>get_question\<close> is the
  expression \<^verbatim>\<open>req.params.get("question", "Explore my Azure costs")\<close>.
\<close>

definition get_question :: "http_request \<Rightarrow> string" where
  "get_question req =
     (case params req ''question'' of Some q \<Rightarrow> q | None \<Rightarrow> ''Explore my Azure costs'')"

definition main :: "services \<Rightarrow> http_request \<Rightarrow> world \<Rightarrow> (error + http_response) \<times> world" where
  "main svc req w =
     (let w0 = print [[CHR 0xF0, CHR 0x9F, CHR 0x94, CHR 0xA5] @ '' LangGraph agent invoked''] w;
          user_question = get_question req
      in case app_invoke svc [(''user_question'', PStr user_question)] w0 of
           (Inl e, w1) \<Rightarrow> (Inl e, w1)
         | (Inr result, w1) \<Rightarrow>
             (case save_state_to_blob svc result w1 of
                (Inl e, w2) \<Rightarrow> (Inl e, w2)
              | (Inr _, w2) \<Rightarrow>
                  (Inr \<lparr>body = json_dumps svc (PDict result), mimetype = ''application/json''\<rparr>,
                   w2)))"

section \<open>Vocabulary of the specification\<close>

text \<open>
  The number a Python value denotes, when it is a finite number: an \<^verbatim>\<open>int\<close>, a \<^verbatim>\<open>bool\<close>
  (a subclass of \<^verbatim>\<open>int\<close>) or a finite \<^verbatim>\<open>float\<close>.
\<close>

fun number_value :: "pyval \<Rightarrow> rat option" where
  "number_value (PInt n) = Some (of_int n)"
| "number_value (PBool b) = Some (if b then 1 else 0)"
| "number_value (PFloat w) = (if float_exponent w = 2047 then None else Some (float_value w))"
| "number_value _ = None"

text \<open>The observation that \<^verbatim>\<open>fetch_cost_data\<close> writes.\<close>

definition cost_observation :: pyval where
  "cost_observation =
     PDict [(''resource'', PStr ''Azure Storage Account''),
            (''monthly_cost_usd'', PFloat float_2_35),
            (''currency'', PStr ''USD'')]"



subsection \<open>Sample services\<close>

text \<open>
  Concrete services for the instances below: a model that answers every prompt with a given
  text, a clock, a container that accepts every upload, and placeholder texts for \<^verbatim>\<open>repr\<close>
  and \<^verbatim>\<open>json.dumps\<close>; the same services with a container that refuses every upload; and a
  world in which nothing has happened yet.
\<close>

definition stub_services :: "string \<Rightarrow> services" where
  "stub_services reply =
     \<lparr>llm_invoke = (\<lambda>prompt. Inr \<lparr>content = Some (PStr reply), response_str = ''AIMessage''\<rparr>),
      utcnow_isoformat = (\<lambda>n. if n = 0 then ''2024-05-01T10:00:00.000001'' else ''2024-05-01T10:00:00.000002''),
      upload_blob = (\<lambda>name data. None),
      py_repr = (\<lambda>v. ''<repr>''),
      json_dumps = (\<lambda>v. ''<json>'')\<rparr>"

definition empty_world :: world where
  "empty_world = \<lparr>stdout = [], prompts = [], clock_reads = 0, blobs = Map.empty\<rparr>"


section \<open>Properties\<close>

subsection \<open>The decoder consumes its input\<close>

text \<open>
  Every successful scan returns a rest that is shorter than its input. So the tests in
  \<open>parse_array\<close> and \<open>parse_object\<close> never fail, and both loops satisfy the equations of
  the library's loops.
\<close>

lemma match_integer_shorter: "match_integer s = Some (neg, ip, r) \<Longrightarrow> length r < length s"
proof -
  assume m: "match_integer s = Some (neg, ip, r)"
  have le: "length (dropWhile is_digit t) \<le> length t" for t
    by (rule length_dropWhile_le)
  show ?thesis
  proof (cases s)
    case Nil
    with m show ?thesis by (simp add: match_integer_def)
  next
    case (Cons c t)
    show ?thesis
    proof (cases "c = CHR ''-''")
      case False
      with m Cons le [of t] show ?thesis
        by (auto simp: match_integer_def split: if_splits)
    next
      case True
      with m Cons obtain d u where t: "t = d # u"
        by (cases t) (auto simp: match_integer_def)
      with m Cons True le [of u] show ?thesis
        by (auto simp: match_integer_def split: if_splits)
    qed
  qed
qed

lemma match_fraction_shorter: "match_fraction s = Some (f, r) \<Longrightarrow> length r \<le> length s"
  using length_dropWhile_le [of is_digit "tl s"]
  by (cases s) (auto simp: match_fraction_def split: if_splits)

lemma match_exponent_shorter: "match_exponent s = Some (e, r) \<Longrightarrow> length r \<le> length s"
proof (cases s)
  case Nil
  assume "match_exponent s = Some (e, r)"
  with Nil show ?thesis by (simp add: match_exponent_def)
next
  case (Cons c t)
  assume m: "match_exponent s = Some (e, r)"
  have le: "length (dropWhile is_digit u) \<le> length u" for u
    by (rule length_dropWhile_le)
  show ?thesis
  proof (cases t)
    case Nil
    with m Cons show ?thesis by (simp add: match_exponent_def Let_def split: if_splits)
  next
    case t: (Cons d u)
    with m Cons le [of t] le [of u] show ?thesis
      by (auto simp: match_exponent_def Let_def split: if_splits)
  qed
qed

lemma match_number_shorter: "match_number s = Some (v, r) \<Longrightarrow> length r < length s"
proof -
  assume m: "match_number s = Some (v, r)"
  then obtain neg ip r1 where i: "match_integer s = Some (neg, ip, r1)"
    by (auto simp: match_number_def split: option.splits)
  define r2 where "r2 = (case match_fraction r1 of None \<Rightarrow> r1 | Some (f, r) \<Rightarrow> r)"
  define r3 where "r3 = (case match_exponent r2 of None \<Rightarrow> r2 | Some (e, r) \<Rightarrow> r)"
  have "length r2 \<le> length r1"
    by (auto simp: r2_def split: option.splits dest: match_fraction_shorter)
  moreover have "length r3 \<le> length r2"
    by (auto simp: r3_def split: option.splits dest: match_exponent_shorter)
  moreover have "r = r3"
    using m i unfolding r2_def r3_def match_number_def Let_def by (auto split: if_splits)
  ultimately show ?thesis
    using match_integer_shorter [OF i] by simp
qed


lemma scan_shorter:
  "scan_once s = Some (v, r) \<Longrightarrow> length r < length s"
  "parse_array vs s = Some (v, r) \<Longrightarrow> length r < length s"
  "parse_object ps s = Some (v, r) \<Longrightarrow> length r < length s"
proof (induction s and vs s and ps s arbitrary: v r and v r and v r
    rule: scan_once_parse_array_parse_object.induct)
  case 1
  then show ?case by (simp add: scan_once.simps)
next
  case (2 c r0)
  note res = "2.prems" [unfolded scan_once.simps]
  consider (str) "c = CHR 0x22" | (obj) "c \<noteq> CHR 0x22" "c = CHR ''{''"
    | (arr) "c \<noteq> CHR 0x22" "c \<noteq> CHR ''{''" "c = CHR ''[''"
    | (other) "c \<noteq> CHR 0x22" "c \<noteq> CHR ''{''" "c \<noteq> CHR ''[''"
    by blast
  then show ?case
  proof cases
    case str
    with res obtain str where "scanstring [] r0 = Some (str, r)"
      by (auto split: option.splits)
    from scanstring_shorter [OF this] show ?thesis by simp
  next
    case obj
    with res obtain c1 r1 where ws: "skip_ws r0 = c1 # r1"
      by (cases "skip_ws r0") auto
    from skip_ws_Cons [OF ws] have r1: "length r1 < length r0" .
    show ?thesis
    proof (cases "c1 = CHR ''}''")
      case True
      with res obj ws r1 show ?thesis by simp
    next
      case False
      with res obj ws have q: "c1 = CHR 0x22" and "parse_object [] r1 = Some (v, r)"
        by (auto split: if_splits)
      with "2.IH"(1) [OF obj ws False q] r1 show ?thesis by simp
    qed
  next
    case arr
    with res obtain c1 r1 where ws: "skip_ws r0 = c1 # r1"
      by (cases "skip_ws r0") auto
    from length_skip_ws [of r0] ws have r1: "length (c1 # r1) \<le> length r0" by simp
    show ?thesis
    proof (cases "c1 = CHR '']''")
      case True
      with res arr ws r1 show ?thesis by simp
    next
      case False
      with res arr ws have "parse_array [] (c1 # r1) = Some (v, r)"
        by simp
      with "2.IH"(2) [OF arr ws False] r1 show ?thesis by simp
    qed
  next
    case other
    have "length (drop n (c # r0)) < length (c # r0)" if "0 < n" for n
      using that by simp
    with res other show ?thesis
      by (auto split: if_splits option.splits dest: match_number_shorter)
  qed
next
  case (3 vs s)
  note res = "3.prems" [unfolded parse_array.simps [of vs s]]
  from res obtain v1 r1 where v1: "scan_once s = Some (v1, r1)"
    by (auto split: option.splits)
  from "3.IH"(1) [OF this] have r1: "length r1 < length s" .
  from res v1 obtain c r2 where ws: "skip_ws r1 = c # r2"
    by (cases "skip_ws r1") auto
  from skip_ws_Cons [OF ws] r1 have r2: "length r2 < length s" by simp
  show ?case
  proof (cases "c = CHR '']''")
    case True
    with res v1 ws r2 show ?thesis by simp
  next
    case False
    with res v1 ws have comma: "c = CHR '',''" and len: "length (skip_ws r2) < length s"
      and rec: "parse_array (vs @ [v1]) (skip_ws r2) = Some (v, r)"
      by (auto split: if_splits)
    have "length r < length (skip_ws r2)"
      using "3.IH"(2) [OF v1 refl ws False _ len rec] comma by simp
    with len show ?thesis by simp
  qed
next
  case (4 ps s)
  note res = "4.prems" [unfolded parse_object.simps [of ps s]]
  from res obtain key r1 where key: "scanstring [] s = Some (key, r1)"
    by (auto split: option.splits)
  from scanstring_shorter [OF this] have r1: "length r1 < length s" .
  from res key obtain c r2 where ws1: "skip_ws r1 = c # r2"
    by (cases "skip_ws r1") auto
  from res key ws1 have colon: "c = CHR '':''"
    by (auto split: if_splits)
  from res key ws1 colon obtain v1 r3 where v1: "scan_once (skip_ws r2) = Some (v1, r3)"
    by (auto split: option.splits)
  have "length r3 < length (skip_ws r2)"
    using "4.IH"(1) [OF key refl ws1 _ v1] colon by simp
  with length_skip_ws [of r2] skip_ws_Cons [OF ws1] r1 have r3: "length r3 < length s"
    by simp
  from res key ws1 colon v1 obtain c2 r4 where ws2: "skip_ws r3 = c2 # r4"
    by (cases "skip_ws r3") auto
  from skip_ws_Cons [OF ws2] r3 have r4: "length r4 < length s" by simp
  show ?case
  proof (cases "c2 = CHR ''}''")
    case True
    with res key ws1 colon v1 ws2 r4 show ?thesis by simp
  next
    case False
    with res key ws1 colon v1 ws2 have comma: "c2 = CHR '',''"
      by (auto split: if_splits)
    from res key ws1 colon v1 ws2 False comma obtain c3 r5 where ws3: "skip_ws r4 = c3 # r5"
      by (cases "skip_ws r4") auto
    from res key ws1 colon v1 ws2 False comma ws3
    have q: "c3 = CHR 0x22" and len: "length r5 < length s"
      and rec: "parse_object (dict_set key v1 ps) r5 = Some (v, r)"
      by (auto split: if_splits)
    have "length r < length r5"
      using "4.IH"(2) [OF key refl ws1 _ v1 refl ws2 False _ ws3 _ len rec] colon comma q
      by simp
    with len show ?thesis by simp
  qed
qed


lemma parse_array_unfold:
  "parse_array vs s =
     (case scan_once s of
        None \<Rightarrow> None
      | Some (v, r) \<Rightarrow>
          (case skip_ws r of
             [] \<Rightarrow> None
           | c # r1 \<Rightarrow>
               if c = CHR '']'' then Some (PList (vs @ [v]), r1)
               else if c \<noteq> CHR '','' then None
               else parse_array (vs @ [v]) (skip_ws r1)))"
proof (cases "scan_once s")
  case None
  then show ?thesis by (simp add: parse_array.simps [of vs s])
next
  case (Some res)
  obtain v r where res: "res = (v, r)" by (cases res)
  show ?thesis
  proof (cases "skip_ws r")
    case Nil
    with Some res show ?thesis by (simp add: parse_array.simps [of vs s])
  next
    case (Cons c r1)
    have "length (skip_ws r1) < length s"
      using scan_shorter(1) [of s v r] skip_ws_Cons [OF Cons] length_skip_ws [of r1] Some res
      by simp
    with Some res Cons show ?thesis by (simp add: parse_array.simps [of vs s])
  qed
qed

lemma parse_object_unfold:
  "parse_object pairs s =
     (case scanstring [] s of
        None \<Rightarrow> None
      | Some (key, r) \<Rightarrow>
          (case skip_ws r of
             [] \<Rightarrow> None
           | c # r1 \<Rightarrow>
               if c \<noteq> CHR '':'' then None
               else
                 (case scan_once (skip_ws r1) of
                    None \<Rightarrow> None
                  | Some (v, r2) \<Rightarrow>
                      (case skip_ws r2 of
                         [] \<Rightarrow> None
                       | c2 # r3 \<Rightarrow>
                           if c2 = CHR ''}'' then Some (PDict (dict_set key v pairs), r3)
                           else if c2 \<noteq> CHR '','' then None
                           else
                             (case skip_ws r3 of
                                [] \<Rightarrow> None
                              | c3 # r4 \<Rightarrow>
                                  if c3 \<noteq> CHR 0x22 then None
                                  else parse_object (dict_set key v pairs) r4)))))"
proof -
  have guard: "length r4 < length s"
    if "scanstring [] s = Some (key, r)" "skip_ws r = c # r1"
      "scan_once (skip_ws r1) = Some (v, r2)" "skip_ws r2 = c2 # r3" "skip_ws r3 = c3 # r4"
    for key r c r1 v r2 c2 r3 c3 r4
    using scanstring_shorter [OF that(1)] skip_ws_Cons [OF that(2)] length_skip_ws [of r1]
      scan_shorter(1) [OF that(3)] skip_ws_Cons [OF that(4)] skip_ws_Cons [OF that(5)]
    by simp
  show ?thesis
    by (subst parse_object.simps)
       (auto split: option.splits list.splits simp: guard)
qed

subsection \<open>Dictionaries\<close>

lemma dict_lookup_dict_set: "dict_lookup (dict_set k v d) k' = (if k' = k then Some v else dict_lookup d k')"
  by (induction d) (auto simp: dict_lookup_def)

lemma dict_keys_dict_set: "dict_keys (dict_set k v d) = insert k (dict_keys d)"
  by (induction d) (auto simp: dict_keys_def)

lemma distinct_dict_set: "distinct (map fst d) \<Longrightarrow> distinct (map fst (dict_set k v d))"
proof (induction d)
  case Nil
  then show ?case by simp
next
  case (Cons kv d)
  have "fst ` set (dict_set k v d) = insert k (fst ` set d)"
    using dict_keys_dict_set [of k v d] by (simp add: dict_keys_def)
  with Cons show ?case by auto
qed

subsection \<open>The float literal\<close>

lemma float_2_35_fields:
  "float_exponent float_2_35 = 1024" "float_fraction float_2_35 = 0x2CCCCCCCCCCCD"
  "\<not> float_sign float_2_35"
  by (simp_all add: float_2_35_def float_exponent_def float_fraction_def float_sign_def)

lemma float_2_35_nearest: "\<bar>float_value float_2_35 - 47 / 20\<bar> \<le> 1 / 2 ^ 52"
  by (simp add: float_value_def float_2_35_fields)

lemma float_2_35_not_gt_5: "\<not> float_gt_int float_2_35 5"
  by (simp add: float_gt_int_def float_is_nan_def float_is_inf_def float_value_def
      float_2_35_fields)

subsection \<open>The anomaly detector\<close>

lemma gt_int_number_value: "number_value c = Some x \<Longrightarrow> gt_int c n = Inr (x > of_int n)"
  by (cases c) (auto simp: float_gt_int_def float_is_nan_def float_is_inf_def split: if_splits)

lemma float_5_fields:
  "float_exponent 0x4014000000000000 = 1025" "float_fraction 0x4014000000000000 = 0x4000000000000"
  "\<not> float_sign 0x4014000000000000"
  by (simp_all add: float_exponent_def float_fraction_def float_sign_def)

lemma number_value_float_5: "number_value (PFloat 0x4014000000000000) = Some 5"
  by (simp add: float_5_fields float_value_def)

text \<open>
  C1. For a state whose \<^verbatim>\<open>cost_data\<close> is a cost observation (a dict whose
  \<^verbatim>\<open>monthly_cost_usd\<close> is a number \<open>x\<close>), \<^verbatim>\<open>detect_anomaly\<close> returns the state with
  \<^verbatim>\<open>anomaly_detected\<close> set to the truth value of \<open>x > 5\<close>; at exactly 5 it is false.
\<close>

theorem detect_anomaly_threshold:
  assumes "dict_lookup state ''cost_data'' = Some (PDict cost_data)"
    and "dict_lookup cost_data ''monthly_cost_usd'' = Some cost"
    and "number_value cost = Some x"
  shows "detect_anomaly state = Inr (dict_set ''anomaly_detected'' (PBool (x > 5)) state)
       \<and> (x = 5 \<longrightarrow> detect_anomaly state = Inr (dict_set ''anomaly_detected'' (PBool False) state))"
proof -
  have "gt_int cost 5 = Inr (x > 5)"
    using gt_int_number_value [OF assms(3), of 5] by simp
  with assms(1,2)
  have "detect_anomaly state = Inr (dict_set ''anomaly_detected'' (PBool (x > 5)) state)"
    by (simp add: detect_anomaly_def)
  then show ?thesis by auto
qed

theorem detect_anomaly_threshold_witness:
  "detect_anomaly [(''cost_data'', PDict [(''monthly_cost_usd'', PFloat 0x4014000000000000)])]
     = Inr [(''cost_data'', PDict [(''monthly_cost_usd'', PFloat 0x4014000000000000)]),
            (''anomaly_detected'', PBool False)]
   \<and> detect_anomaly [(''cost_data'', PDict [(''monthly_cost_usd'', PInt 6)])]
     = Inr [(''cost_data'', PDict [(''monthly_cost_usd'', PInt 6)]),
            (''anomaly_detected'', PBool True)]"
proof -
  have a: "dict_lookup [(''cost_data'', PDict [(''monthly_cost_usd'', c)])] ''cost_data''
      = Some (PDict [(''monthly_cost_usd'', c)])" for c
    by (simp add: dict_lookup_def)
  have b: "dict_lookup [(''monthly_cost_usd'', c)] ''monthly_cost_usd'' = Some c" for c
    by (simp add: dict_lookup_def)
  have c: "number_value (PInt 6) = Some 6"
    by simp
  show ?thesis
    using detect_anomaly_threshold [OF a b number_value_float_5]
      detect_anomaly_threshold [OF a b c]
    by simp
qed

subsection \<open>The cost fetcher\<close>

lemmas float_eval = parse_float_def binary64_of_fraction_def floor_log2_def round_half_even_def
  bit_length.simps digits_value_def digit_value_def

lemma float_2_35_literal: "parse_float False ''2'' ''35'' 0 = float_2_35"
  by (simp add: float_eval float_2_35_def)

lemma dict_lookup_fetch_cost_data:
  "dict_lookup (fetch_cost_data state) k =
     (if k = ''cost_data''
      then Some (PDict [(''resource'', PStr ''Azure Storage Account''),
                        (''monthly_cost_usd'', PFloat float_2_35),
                        (''currency'', PStr ''USD'')])
      else dict_lookup state k)"
  by (simp add: fetch_cost_data_def dict_lookup_dict_set)

text \<open>
  C2. Whatever the input state, \<^verbatim>\<open>fetch_cost_data\<close> returns (it has no failure) a state
  whose \<^verbatim>\<open>cost_data\<close> is the fixed observation: resource "Azure Storage Account",
  monthly cost the float that the literal \<^verbatim>\<open>2.35\<close> denotes, currency "USD". Two calls on
  any two states give the same observation.
\<close>

theorem fetch_cost_data_fixed:
  "dict_lookup (fetch_cost_data state) ''cost_data''
     = Some (PDict [(''resource'', PStr ''Azure Storage Account''),
                    (''monthly_cost_usd'', PFloat (parse_float False ''2'' ''35'' 0)),
                    (''currency'', PStr ''USD'')])
   \<and> dict_lookup (fetch_cost_data state) ''cost_data''
     = dict_lookup (fetch_cost_data state') ''cost_data''"
  by (simp add: dict_lookup_fetch_cost_data float_2_35_literal)

subsection \<open>The missing field\<close>

lemma detect_anomaly_KeyError:
  "detect_anomaly state = Inl (KeyError ''cost_data'') \<longleftrightarrow> dict_lookup state ''cost_data'' = None"
proof (cases "dict_lookup state ''cost_data''")
  case None
  then show ?thesis by (simp add: detect_anomaly_def)
next
  case (Some cd)
  have "getitem cd ''monthly_cost_usd'' \<noteq> Inl (KeyError ''cost_data'')"
    by (cases cd) (auto split: option.splits)
  moreover have "gt_int c 5 \<noteq> Inl (KeyError ''cost_data'')" for c
    by (cases c) auto
  ultimately show ?thesis
    using Some by (auto simp: detect_anomaly_def split: sum.splits)
qed

text \<open>
  C9. When the key \<^verbatim>\<open>cost_data\<close> is absent, \<^verbatim>\<open>detect_anomaly\<close> raises the \<^verbatim>\<open>KeyError\<close> of
  that key (the specification's MissingFieldError) and returns nothing. When the key is
  present that error does not occur, and on a cost observation the call returns.
\<close>

theorem detect_anomaly_missing_cost_data:
  "(dict_lookup state ''cost_data'' = None \<longrightarrow> detect_anomaly state = Inl (KeyError ''cost_data''))
   \<and> (dict_lookup state ''cost_data'' \<noteq> None \<longrightarrow> detect_anomaly state \<noteq> Inl (KeyError ''cost_data''))
   \<and> (\<forall>cost_data cost x.
         dict_lookup state ''cost_data'' = Some (PDict cost_data)
         \<and> dict_lookup cost_data ''monthly_cost_usd'' = Some cost
         \<and> number_value cost = Some x
         \<longrightarrow> (\<exists>state'. detect_anomaly state = Inr state'))"
proof (intro conjI allI impI)
  assume "dict_lookup state ''cost_data'' = None"
  then show "detect_anomaly state = Inl (KeyError ''cost_data'')"
    by (simp add: detect_anomaly_KeyError)
next
  assume "dict_lookup state ''cost_data'' \<noteq> None"
  then show "detect_anomaly state \<noteq> Inl (KeyError ''cost_data'')"
    by (simp add: detect_anomaly_KeyError)
next
  fix cost_data cost x
  assume "dict_lookup state ''cost_data'' = Some (PDict cost_data)
    \<and> dict_lookup cost_data ''monthly_cost_usd'' = Some cost \<and> number_value cost = Some x"
  then show "\<exists>state'. detect_anomaly state = Inr state'"
    using gt_int_number_value [of cost x 5] by (simp add: detect_anomaly_def)
qed

theorem detect_anomaly_missing_cost_data_witness:
  "detect_anomaly [(''user_question'', PStr ''hello'')] = Inl (KeyError ''cost_data'')
   \<and> detect_anomaly (fetch_cost_data []) \<noteq> Inl (KeyError ''cost_data'')
   \<and> (\<exists>state'. detect_anomaly (fetch_cost_data []) = Inr state')"
proof -
  have absent: "dict_lookup [(''user_question'', PStr ''hello'')] ''cost_data'' = None"
    by (simp add: dict_lookup_def)
  have present: "dict_lookup (fetch_cost_data []) ''cost_data''
      = Some (PDict [(''resource'', PStr ''Azure Storage Account''),
                     (''monthly_cost_usd'', PFloat float_2_35),
                     (''currency'', PStr ''USD'')])"
    by (simp add: dict_lookup_fetch_cost_data)
  have cost: "dict_lookup [(''resource'', PStr ''Azure Storage Account''),
                     (''monthly_cost_usd'', PFloat float_2_35),
                     (''currency'', PStr ''USD'')] ''monthly_cost_usd'' = Some (PFloat float_2_35)"
    by (simp add: dict_lookup_def)
  have num: "number_value (PFloat float_2_35) = Some (float_value float_2_35)"
    by (simp add: float_2_35_fields)
  show ?thesis
    using detect_anomaly_missing_cost_data [of "[(''user_question'', PStr ''hello'')]"]
      detect_anomaly_missing_cost_data [of "fetch_cost_data []"]
      absent present cost num
    by blast
qed

subsection \<open>The decoder on examples\<close>

text \<open>The replies of the specification's examples, and the replies \<^verbatim>\<open>[]\<close> and \<^verbatim>\<open>{}\<close>.\<close>

lemmas json_eval = json_loads_def skip_ws_def is_ws_def scan_once.simps parse_array.simps
  parse_object.simps match_number_def match_integer_def match_fraction_def match_exponent_def
  is_digit_def digits_value_def digit_value_def






text \<open>
  Escapes, surrogates, a repeated key, numbers, and texts the decoder rejects, each with
  the result of \<^verbatim>\<open>json.loads\<close>.
\<close>

lemmas string_eval = backslash_def decode_uXXXX_def hex_value_def chr_utf8_def char_of_def bit_0

lemma ex_surrogate_pair:
  "json_loads (PStr ([CHR 0x22, CHR 0x5C] @ ''ud83d'' @ [CHR 0x5C] @ ''ude00'' @ [CHR 0x22]))
     = Inr (PStr [CHR 0xF0, CHR 0x9F, CHR 0x98, CHR 0x80])"
  by (simp add: json_eval string_eval)

lemma ex_lone_surrogate:
  "json_loads (PStr ([CHR 0x22, CHR 0x5C] @ ''ud800'' @ [CHR 0x22]))
     = Inr (PStr [CHR 0xED, CHR 0xA0, CHR 0x80])"
  by (simp add: json_eval string_eval)

lemma ex_escapes:
  "json_loads (PStr ([CHR 0x22] @ ''a'' @ [CHR 0x5C] @ ''/b'' @ [CHR 0x5C, CHR 0x5C] @ ''c''
      @ [CHR 0x5C, CHR 0x22] @ ''d'' @ [CHR 0x5C] @ ''n'' @ [CHR 0x22]))
     = Inr (PStr (''a/b'' @ [CHR 0x5C] @ ''c'' @ [CHR 0x22] @ ''d\<newline>''))"
  by (simp add: json_eval string_eval)

lemma ex_duplicate_key:
  "json_loads (PStr ''{\"a\": 1, \"b\": [true, null], \"a\": 2}'')
     = Inr (PDict [(''a'', PInt 2), (''b'', PList [PBool True, PNone])])"
  by (simp add: json_eval)

lemma ex_float_exponent: "parse_float False ''1'' [] 5 = 0x40F86A0000000000"
  by (simp add: float_eval)

lemma ex_float: "json_loads (PStr ''1e5'') = Inr (PFloat 0x40F86A0000000000)"
  by (simp add: json_eval ex_float_exponent)

lemma ex_negative_zero: "json_loads (PStr ''-0'') = Inr (PInt 0)"
  by (simp add: json_eval)

lemma ex_rejected:
  "json_loads (PStr ''[1,]'') = Inl JSONDecodeError"
  "json_loads (PStr ''{\"a\":1,}'') = Inl JSONDecodeError"
  "json_loads (PStr ''01'') = Inl JSONDecodeError"
  "json_loads (PStr ''1 2'') = Inl JSONDecodeError"
  "json_loads (PStr ''nul'') = Inl JSONDecodeError"
  "json_loads (PStr [CHR 0x22, CHR 0x09, CHR 0x22]) = Inl JSONDecodeError"
  "json_loads (PStr '''') = Inl JSONDecodeError"
  "json_loads (PInt 1) = Inl TypeError"
  by (simp_all add: json_eval)

subsection \<open>The advisor\<close>

lemma json_loads_str:
  "json_loads (PStr s) = Inl JSONDecodeError \<or> (\<exists>v. json_loads (PStr s) = Inr v)"
  by (simp add: json_loads_def split: option.splits)

lemma store_optimizations_str:
  "store_optimizations (PStr text) state =
     Inr (dict_set ''optimizations''
            (case json_loads (PStr text) of
               Inr v \<Rightarrow> v
             | Inl e \<Rightarrow> PDict [(''raw_output'', PStr text)])
            state)"
  using json_loads_str [of "text"] by (auto simp: store_optimizations_def)

lemma simulate_optimizations_reply:
  assumes "dict_lookup state ''cost_data'' = Some cost_data"
    and "llm_invoke svc (make_prompt (py_str svc cost_data)
           (py_str svc (dict_get state ''user_question'' (PStr ''Explore my Azure costs''))))
         = Inr response"
  shows "fst (simulate_optimizations svc state w) = store_optimizations (raw_text_of response) state"
  using assms by (simp add: simulate_optimizations_def Let_def)


lemma stub_reply:
  "llm_invoke (stub_services reply) prompt = Inr \<lparr>content = Some (PStr reply), response_str = ''AIMessage''\<rparr>"
  "raw_text_of \<lparr>content = Some (PStr reply), response_str = ''AIMessage''\<rparr> = PStr reply"
  by (simp_all add: stub_services_def raw_text_of_def)





subsection \<open>The request\<close>

lemma detect_anomaly_fetch_cost_data:
  "detect_anomaly (fetch_cost_data input)
     = Inr (dict_set ''anomaly_detected'' (PBool False) (fetch_cost_data input))"
proof -
  have "getitem cost_observation ''monthly_cost_usd'' = Inr (PFloat float_2_35)"
    by (simp add: cost_observation_def dict_lookup_def)
  then show ?thesis
    by (simp add: detect_anomaly_def dict_lookup_fetch_cost_data float_2_35_not_gt_5
        flip: cost_observation_def)
qed

lemma dict_lookup_after_detect:
  "dict_lookup (dict_set ''anomaly_detected'' b (fetch_cost_data input)) ''cost_data''
     = Some cost_observation"
  "dict_lookup (dict_set ''anomaly_detected'' b (fetch_cost_data input)) ''user_question''
     = dict_lookup input ''user_question''"
  by (simp_all add: dict_lookup_dict_set dict_lookup_fetch_cost_data cost_observation_def)

lemma py_str_cost_observation: "py_str svc cost_observation = py_repr svc cost_observation"
  by (simp add: py_str_def cost_observation_def)

text \<open>What each function does to the world, and the run of the whole chain.\<close>

lemma simulate_optimizations_world:
  assumes "dict_lookup state ''cost_data'' = Some cost_data"
  shows "prompts (snd (simulate_optimizations svc state w))
           = prompts w @ [make_prompt (py_str svc cost_data)
               (py_str svc (dict_get state ''user_question'' (PStr ''Explore my Azure costs'')))]"
    and "clock_reads (snd (simulate_optimizations svc state w)) = clock_reads w"
    and "blobs (snd (simulate_optimizations svc state w)) = blobs w"
  using assms
  by (simp_all add: simulate_optimizations_def Let_def print_def split: sum.splits)

lemma generate_report_eq:
  "generate_report svc state w =
     (([(''timestamp'', PStr (utcnow_isoformat svc (clock_reads w))),
        (''cost_data'', dict_get state ''cost_data'' PNone),
        (''anomaly_detected'', dict_get state ''anomaly_detected'' PNone),
        (''optimizations'', dict_get state ''optimizations'' PNone)],
       state),
      w\<lparr>clock_reads := Suc (clock_reads w)\<rparr>)"
  by (simp add: generate_report_def utcnow_def)

lemma save_state_to_blob_eq:
  "save_state_to_blob svc report w =
     (case upload_blob svc (''agent-report-'' @ utcnow_isoformat svc (clock_reads w) @ ''.json'')
             (json_dumps svc (PDict report)) of
        Some e \<Rightarrow> (Inl e, w\<lparr>clock_reads := Suc (clock_reads w)\<rparr>)
      | None \<Rightarrow>
          (Inr (),
           w\<lparr>clock_reads := Suc (clock_reads w),
             blobs := (blobs w)(''agent-report-'' @ utcnow_isoformat svc (clock_reads w) @ ''.json''
                        \<mapsto> json_dumps svc (PDict report))\<rparr>))"
  by (simp add: save_state_to_blob_def utcnow_def Let_def split: option.splits)

lemma app_invoke_eq:
  "app_invoke svc input w =
     (case simulate_optimizations svc
             (dict_set ''anomaly_detected'' (PBool False) (fetch_cost_data input)) w of
        (Inl e, w1) \<Rightarrow> (Inl e, w1)
      | (Inr state', w1) \<Rightarrow>
          (Inr [(''timestamp'', PStr (utcnow_isoformat svc (clock_reads w1))),
                (''cost_data'', dict_get state' ''cost_data'' PNone),
                (''anomaly_detected'', dict_get state' ''anomaly_detected'' PNone),
                (''optimizations'', dict_get state' ''optimizations'' PNone)],
           w1\<lparr>clock_reads := Suc (clock_reads w1)\<rparr>))"
  by (simp add: app_invoke_def detect_anomaly_fetch_cost_data generate_report_eq
      split: prod.splits sum.splits)

lemma app_invoke_world:
  "prompts (snd (app_invoke svc input w))
     = prompts w @ [make_prompt (py_repr svc cost_observation)
         (py_str svc (dict_get input ''user_question'' (PStr ''Explore my Azure costs'')))]"
  "app_invoke svc input w = (Inr report, w1) \<Longrightarrow> clock_reads w1 = Suc (clock_reads w)"
proof -
  let ?state = "dict_set ''anomaly_detected'' (PBool False) (fetch_cost_data input)"
  have q: "dict_get ?state ''user_question'' d = dict_get input ''user_question'' d" for d
    by (simp add: dict_get_def dict_lookup_after_detect)
  note sim = simulate_optimizations_world [of ?state cost_observation svc w,
      OF dict_lookup_after_detect(1)]
  show "prompts (snd (app_invoke svc input w))
     = prompts w @ [make_prompt (py_repr svc cost_observation)
         (py_str svc (dict_get input ''user_question'' (PStr ''Explore my Azure costs'')))]"
    using sim(1) by (auto simp: app_invoke_eq q py_str_cost_observation split: prod.splits sum.splits)
  show "clock_reads w1 = Suc (clock_reads w)" if "app_invoke svc input w = (Inr report, w1)"
    using sim(2) that by (auto simp: app_invoke_eq split: prod.splits sum.splits)
qed

lemma main_eq:
  "main svc req w =
     (case app_invoke svc [(''user_question'', PStr (get_question req))]
             (print [[CHR 0xF0, CHR 0x9F, CHR 0x94, CHR 0xA5] @ '' LangGraph agent invoked''] w) of
        (Inl e, w1) \<Rightarrow> (Inl e, w1)
      | (Inr result, w1) \<Rightarrow>
          (case upload_blob svc
                  (''agent-report-'' @ utcnow_isoformat svc (clock_reads w1) @ ''.json'')
                  (json_dumps svc (PDict result)) of
             Some e \<Rightarrow> (Inl e, w1\<lparr>clock_reads := Suc (clock_reads w1)\<rparr>)
           | None \<Rightarrow>
               (Inr \<lparr>body = json_dumps svc (PDict result), mimetype = ''application/json''\<rparr>,
                w1\<lparr>clock_reads := Suc (clock_reads w1),
                   blobs := (blobs w1)
                     (''agent-report-'' @ utcnow_isoformat svc (clock_reads w1) @ ''.json''
                      \<mapsto> json_dumps svc (PDict result))\<rparr>)))"
  by (simp add: main_def save_state_to_blob_eq split: prod.splits sum.splits option.splits)

lemma main_prompts:
  "prompts (snd (main svc req w))
     = prompts w @ [make_prompt (py_repr svc cost_observation) (get_question req)]"
proof -
  let ?w0 = "print [[CHR 0xF0, CHR 0x9F, CHR 0x94, CHR 0xA5] @ '' LangGraph agent invoked''] w"
  let ?input = "[(''user_question'', PStr (get_question req))]"
  have "prompts (snd (main svc req w)) = prompts (snd (app_invoke svc ?input ?w0))"
    by (simp add: main_eq split: prod.splits sum.splits option.splits)
  also have "\<dots> = prompts ?w0 @ [make_prompt (py_repr svc cost_observation) (get_question req)]"
    by (simp add: app_invoke_world(1) dict_get_def dict_lookup_def py_str_def)
  finally show ?thesis by (simp add: print_def)
qed




text \<open>
  C6. \<^verbatim>\<open>generate_report\<close> returns a dict with the four keys timestamp, cost_data,
  anomaly_detected and optimizations, in this order; each of the last three is the state's
  value under that key, or \<^verbatim>\<open>None\<close> when the key is missing; the argument is left as it
  was.
\<close>

theorem generate_report_fields:
  "fst (generate_report svc state w) =
     ([(''timestamp'', PStr (utcnow_isoformat svc (clock_reads w))),
       (''cost_data'', case dict_lookup state ''cost_data'' of Some v \<Rightarrow> v | None \<Rightarrow> PNone),
       (''anomaly_detected'',
          case dict_lookup state ''anomaly_detected'' of Some v \<Rightarrow> v | None \<Rightarrow> PNone),
       (''optimizations'',
          case dict_lookup state ''optimizations'' of Some v \<Rightarrow> v | None \<Rightarrow> PNone)],
      state)
   \<and> map fst (fst (fst (generate_report svc state w)))
     = [''timestamp'', ''cost_data'', ''anomaly_detected'', ''optimizations'']"
  by (simp add: generate_report_eq dict_get_def)

text \<open>
  C7. For a request without a \<^verbatim>\<open>question\<close> parameter the question is the default
  "Explore my Azure costs", and the one prompt sent to the model is the prompt template
  filled with the cost observation and this text after the line "User question:".
\<close>

theorem default_question_in_prompt:
  assumes "params req ''question'' = None"
  shows "get_question req = ''Explore my Azure costs''
     \<and> prompts (snd (main svc req w))
       = prompts w @ [make_prompt (py_repr svc cost_observation) ''Explore my Azure costs'']
     \<and> (\<exists>before after.
          make_prompt (py_repr svc cost_observation) ''Explore my Azure costs''
          = before @ ''User question:\<newline>Explore my Azure costs\<newline>'' @ after)"
proof (intro conjI)
  show q: "get_question req = ''Explore my Azure costs''"
    using assms by (simp add: get_question_def)
  show "prompts (snd (main svc req w))
       = prompts w @ [make_prompt (py_repr svc cost_observation) ''Explore my Azure costs'']"
    by (simp add: main_prompts q)
  have "make_prompt (py_repr svc cost_observation) ''Explore my Azure costs''
      = (''\<newline>You are an Azure cost optimization assistant.\<newline>\<newline>Cost data:\<newline>''
           @ py_repr svc cost_observation @ ''\<newline>\<newline>'')
        @ ''User question:\<newline>Explore my Azure costs\<newline>''
        @ (''\<newline>STRICTLY return a single valid JSON object with the keys:\<newline>''
           @ ''- resource\<newline>- recommended_change\<newline>- estimated_monthly_savings\<newline>- risk_level\<newline>'')"
    by (simp add: make_prompt_def)
  then show "\<exists>before after.
          make_prompt (py_repr svc cost_observation) ''Explore my Azure costs''
          = before @ ''User question:\<newline>Explore my Azure costs\<newline>'' @ after"
    by blast
qed

theorem default_question_in_prompt_witness:
  "prompts (snd (main (stub_services ''[]'') \<lparr>params = Map.empty\<rparr> empty_world))
     = [make_prompt ''<repr>'' ''Explore my Azure costs'']"
proof -
  have "params \<lparr>params = Map.empty\<rparr> ''question'' = None"
    by simp
  from default_question_in_prompt [OF this, of "stub_services ''[]''" empty_world]
  show ?thesis
    by (simp add: stub_services_def empty_world_def)
qed

subsection \<open>The frame of the stages\<close>

lemma detect_anomaly_Inr:
  "detect_anomaly state = Inr state' \<Longrightarrow> \<exists>b. state' = dict_set ''anomaly_detected'' (PBool b) state"
  by (auto simp: detect_anomaly_def split: sum.splits)

lemma store_optimizations_Inr:
  "store_optimizations raw_text state = Inr state' \<Longrightarrow> \<exists>v. state' = dict_set ''optimizations'' v state"
  by (auto simp: store_optimizations_def split: sum.splits if_splits)

lemma simulate_optimizations_Inr:
  "fst (simulate_optimizations svc state w) = Inr state' \<Longrightarrow>
     \<exists>v. state' = dict_set ''optimizations'' v state"
  by (auto simp: simulate_optimizations_def Let_def split: sum.splits
      dest: store_optimizations_Inr)

text \<open>
  C8. Each of the three stages that returns gives back the state with its own key written
  and every other key as it was: the set of keys grows by that key only.
\<close>

theorem stages_write_own_key:
  "(dict_keys (fetch_cost_data state) = insert ''cost_data'' (dict_keys state)
    \<and> (\<forall>k. k \<noteq> ''cost_data'' \<longrightarrow> dict_lookup (fetch_cost_data state) k = dict_lookup state k))
   \<and> (\<forall>state'. detect_anomaly state = Inr state' \<longrightarrow>
         dict_keys state' = insert ''anomaly_detected'' (dict_keys state)
         \<and> (\<forall>k. k \<noteq> ''anomaly_detected'' \<longrightarrow> dict_lookup state' k = dict_lookup state k))
   \<and> (\<forall>state'. fst (simulate_optimizations svc state w) = Inr state' \<longrightarrow>
         dict_keys state' = insert ''optimizations'' (dict_keys state)
         \<and> (\<forall>k. k \<noteq> ''optimizations'' \<longrightarrow> dict_lookup state' k = dict_lookup state k))"
proof (intro conjI allI impI)
  show "dict_keys (fetch_cost_data state) = insert ''cost_data'' (dict_keys state)"
    by (simp add: fetch_cost_data_def dict_keys_dict_set)
  show "dict_lookup (fetch_cost_data state) k = dict_lookup state k" if "k \<noteq> ''cost_data''" for k
    using that by (simp add: dict_lookup_fetch_cost_data)
next
  fix state'
  assume "detect_anomaly state = Inr state'"
  then obtain b where s: "state' = dict_set ''anomaly_detected'' (PBool b) state"
    using detect_anomaly_Inr by blast
  show "dict_keys state' = insert ''anomaly_detected'' (dict_keys state)"
    by (simp add: s dict_keys_dict_set)
  show "dict_lookup state' k = dict_lookup state k" if "k \<noteq> ''anomaly_detected''" for k
    using that by (simp add: s dict_lookup_dict_set)
next
  fix state'
  assume "fst (simulate_optimizations svc state w) = Inr state'"
  then obtain v where s: "state' = dict_set ''optimizations'' v state"
    using simulate_optimizations_Inr by blast
  show "dict_keys state' = insert ''optimizations'' (dict_keys state)"
    by (simp add: s dict_keys_dict_set)
  show "dict_lookup state' k = dict_lookup state k" if "k \<noteq> ''optimizations''" for k
    using that by (simp add: s dict_lookup_dict_set)
qed

theorem stages_write_own_key_witness:
  "dict_keys (fetch_cost_data [(''user_question'', PStr ''hi'')]) = {''cost_data'', ''user_question''}
   \<and> dict_lookup (fetch_cost_data [(''user_question'', PStr ''hi'')]) ''user_question''
     = Some (PStr ''hi'')
   \<and> (\<exists>state'. detect_anomaly (fetch_cost_data [(''user_question'', PStr ''hi'')]) = Inr state'
        \<and> dict_keys state' = {''anomaly_detected'', ''cost_data'', ''user_question''}
        \<and> dict_lookup state' ''user_question'' = Some (PStr ''hi''))
   \<and> (\<exists>state'. fst (simulate_optimizations (stub_services ''[]'')
                      (fetch_cost_data [(''user_question'', PStr ''hi'')]) empty_world) = Inr state'
        \<and> dict_keys state' = {''optimizations'', ''cost_data'', ''user_question''}
        \<and> dict_lookup state' ''user_question'' = Some (PStr ''hi''))"
proof -
  let ?s0 = "[(''user_question'', PStr ''hi'')]"
  have k0: "dict_keys ?s0 = {''user_question''}" and l0: "dict_lookup ?s0 ''user_question'' = Some (PStr ''hi'')"
    by (simp_all add: dict_keys_def dict_lookup_def)
  have ne: "''user_question'' \<noteq> ''cost_data''" "''user_question'' \<noteq> ''anomaly_detected''"
    "''user_question'' \<noteq> ''optimizations''"
    by simp_all
  obtain s1 where s1: "detect_anomaly (fetch_cost_data ?s0) = Inr s1"
    using detect_anomaly_fetch_cost_data by blast
  have "fst (simulate_optimizations (stub_services ''[]'') (fetch_cost_data ?s0) empty_world)
      = store_optimizations (PStr ''[]'') (fetch_cost_data ?s0)"
    using simulate_optimizations_reply [of "fetch_cost_data ?s0" cost_observation
        "stub_services ''[]''" _ empty_world] stub_reply [of "''[]''"]
    by (simp add: dict_lookup_fetch_cost_data cost_observation_def)
  then obtain s2 where s2: "fst (simulate_optimizations (stub_services ''[]'')
      (fetch_cost_data ?s0) empty_world) = Inr s2"
    by (simp add: store_optimizations_str)
  have f: "dict_keys (fetch_cost_data ?s0) = {''cost_data'', ''user_question''}"
    "dict_lookup (fetch_cost_data ?s0) ''user_question'' = Some (PStr ''hi'')"
    using stages_write_own_key [of ?s0 "stub_services ''[]''" empty_world] k0 l0 ne by auto
  have d: "dict_keys s1 = {''anomaly_detected'', ''cost_data'', ''user_question''}"
    "dict_lookup s1 ''user_question'' = Some (PStr ''hi'')"
    using stages_write_own_key [of "fetch_cost_data ?s0" "stub_services ''[]''" empty_world] s1 f ne
    by auto
  have o: "dict_keys s2 = {''optimizations'', ''cost_data'', ''user_question''}"
    "dict_lookup s2 ''user_question'' = Some (PStr ''hi'')"
    using stages_write_own_key [of "fetch_cost_data ?s0" "stub_services ''[]''" empty_world] s2 f ne
    by auto
  from f d o s1 s2 show ?thesis by blast
qed



end
